theory Spec2Isabelle
  imports Main "HOL-Library.Word"
begin

section \<open>Data model\<close>

text \<open>
  The notebooks of the repository are linear scripts over module-level variables. Two
  pieces of logic are embedded here: the token packing of
  \<^verbatim>\<open>pretraining-llms/Lesson_3.ipynb\<close> (cells 4.1 and 4.2) and the environment
  bootstrap (\<^verbatim>\<open>setup_environment\<close> and the run-mode selection cell) that the
  lesson notebooks share.

  The column \<^verbatim>\<open>dataset["input_ids"]\<close> holds one list of 64-bit signed token ids
  per record, so a token id is a machine word, read as a signed value with
  \<^const>\<open>sint\<close>. Lengths, the row width \<^verbatim>\<open>max_seq_length\<close> and
  \<^verbatim>\<open>total_length\<close> are Python integers, hence \<^typ>\<open>int\<close>. The output elements are
  \<^verbatim>\<open>int32\<close> words.
\<close>

type_synonym int64 = "64 word"
type_synonym int32 = "32 word"

text \<open>The exceptions the modelled statements can raise, named after the Python class
  and, where one class has two origins, the call that raises it.\<close>

datatype error =
    ValueError_concatenate  \<comment> \<open>\<^verbatim>\<open>np.concatenate\<close>: need at least one array to concatenate\<close>
  | ZeroDivisionError       \<comment> \<open>\<^verbatim>\<open>%\<close> with a zero right operand\<close>
  | ValueError_reshape      \<comment> \<open>\<^verbatim>\<open>reshape\<close>: two unknown dimensions, a size mismatch, or a shape that is too big\<close>
  | NameError               \<comment> \<open>a module-level name read before it is bound\<close>
  | ModuleNotFoundError     \<comment> \<open>\<^verbatim>\<open>from google.colab import drive\<close> outside Colab\<close>
  | MountError              \<comment> \<open>\<^verbatim>\<open>drive.mount\<close> raised\<close>
  | OSError                 \<comment> \<open>\<^verbatim>\<open>os.makedirs\<close> or \<^verbatim>\<open>os.chdir\<close> raised\<close>
  | AssertionError          \<comment> \<open>the folder-name assertion of the local branch\<close>

text \<open>A one-dimensional numpy array: its element type and the value of each element.
  The arrays of the packing cells are \<^verbatim>\<open>int64\<close> or \<^verbatim>\<open>float64\<close>; a
  \<^verbatim>\<open>float64\<close> element here always holds a whole number, so \<^typ>\<open>int\<close> carries the
  values of both.\<close>

datatype dtype = Int64 | Float64

record ndarray =
  dtype :: dtype
  items :: "int list"

text \<open>The module-level names the packing cells bind (\<^const>\<open>None\<close> is an unbound
  name) and the lines they print.\<close>

record notebook =
  input_ids :: "ndarray option"
  max_seq_length :: "int option"
  total_length :: "int option"
  input_ids_reshaped :: "int32 list list option"
  stdout :: "string list"

definition fresh :: notebook where
  "fresh = \<lparr>input_ids = None, max_seq_length = None, total_length = None,
            input_ids_reshaped = None, stdout = []\<rparr>"

section \<open>The packing cells of Lesson 3\<close>

subsection \<open>Python built-ins\<close>

text \<open>\<^verbatim>\<open>str\<close> of an integer, as the f-strings of the cells format it.\<close>

function digits :: "int \<Rightarrow> string" where
  "digits n = (if n < 10 then [char_of (48 + n)]
               else digits (n div 10) @ [char_of (48 + n mod 10)])"
  by pat_completeness auto

termination digits
  by (relation "measure nat") auto

declare digits.simps [simp del]

definition py_str :: "int \<Rightarrow> string" where
  "py_str i = (if i < 0 then CHR ''-'' # digits (- i) else digits i)"

definition py_print :: "string \<Rightarrow> notebook \<Rightarrow> notebook" where
  "py_print line s = s\<lparr>stdout := stdout s @ [line]\<rparr>"

text \<open>\<^verbatim>\<open>a[:k]\<close>: a negative bound counts from the end and is clipped at 0, a bound
  beyond the end is clipped to the length.\<close>

definition slice_to :: "int \<Rightarrow> 'a list \<Rightarrow> 'a list" where
  "slice_to k xs = (if k < 0 then take (nat (int (length xs) + k)) xs else take (nat k) xs)"

subsection \<open>numpy\<close>

text \<open>The conversion of a whole number to \<^verbatim>\<open>float64\<close>: exact up to 53 bits, beyond
  that rounded to 53 significant bits, ties to even.\<close>

function bit_length :: "int \<Rightarrow> nat" where
  "bit_length n = (if n \<le> 0 then 0 else Suc (bit_length (n div 2)))"
  by pat_completeness auto

termination bit_length
  by (relation "measure nat") auto

declare bit_length.simps [simp del]

definition float64_of_int :: "int \<Rightarrow> int" where
  "float64_of_int x =
     (let m = \<bar>x\<bar>; e = bit_length m
      in if e \<le> 53 then x
         else
           let u = 2 ^ (e - 53); q = m div u; r = m mod u;
               q' = (if u < 2 * r \<or> (2 * r = u \<and> odd q) then q + 1 else q)
           in sgn x * (q' * u))"

text \<open>\<^verbatim>\<open>np.concatenate(seqs)\<close> on a list of Python lists. An empty collection
  raises \<^verbatim>\<open>ValueError\<close>. Each list becomes an array first: a non-empty list of ids an
  \<^verbatim>\<open>int64\<close> array, an empty list a \<^verbatim>\<open>float64\<close> array; one \<^verbatim>\<open>float64\<close>
  operand makes the result \<^verbatim>\<open>float64\<close>, and every id is converted to it. The
  elements are joined in collection order.\<close>

definition result_dtype :: "int64 list list \<Rightarrow> dtype" where
  "result_dtype seqs = (if [] \<in> set seqs then Float64 else Int64)"

definition element_value :: "dtype \<Rightarrow> int64 \<Rightarrow> int" where
  "element_value d x = (case d of Int64 \<Rightarrow> sint x | Float64 \<Rightarrow> float64_of_int (sint x))"

definition concatenated :: "int64 list list \<Rightarrow> ndarray" where
  "concatenated seqs =
     \<lparr>dtype = result_dtype seqs,
      items = map (element_value (result_dtype seqs)) (concat seqs)\<rparr>"

definition np_concatenate :: "int64 list list \<Rightarrow> error + ndarray" where
  "np_concatenate seqs = (if seqs = [] then Inl ValueError_concatenate else Inr (concatenated seqs))"

definition len :: "ndarray \<Rightarrow> int" where
  "len a = int (length (items a))"

text \<open>The rows of a row-major view: \<open>k\<close> rows of width \<open>w\<close> laid over the buffer one
  after the other.\<close>

primrec rows_of :: "nat \<Rightarrow> nat \<Rightarrow> 'a list \<Rightarrow> 'a list list" where
  "rows_of 0 w xs = []"
| "rows_of (Suc k) w xs = take w xs # rows_of k w (drop w xs)"

text \<open>\<^verbatim>\<open>a.reshape(-1, L)\<close>, on a 64-bit machine. Every negative entry of the shape
  counts as an unknown dimension and only one is allowed, so a negative \<open>L\<close> raises.
  Otherwise the unknown dimension is \<open>size / L\<close>, which needs \<open>L \<noteq> 0\<close> and \<open>L\<close>
  dividing the size. The byte count of the new shape, the item size times its non-zero
  dimensions, must stay below \<open>2^63\<close>: the rows taken from an existing array never
  exceed that, so it is the row width alone that can, from \<open>L = 2^60\<close> on (a width of
  \<open>2^63\<close> or more is refused as a dimension already). All of these are
  \<^verbatim>\<open>ValueError\<close>.\<close>

definition itemsize :: "dtype \<Rightarrow> int" where
  "itemsize d = (case d of Int64 \<Rightarrow> 8 | Float64 \<Rightarrow> 8)"

definition np_reshape :: "int \<Rightarrow> ndarray \<Rightarrow> error + int list list" where
  "np_reshape L a =
     (if L < 0 then Inl ValueError_reshape
      else if L = 0 \<or> len a mod L \<noteq> 0 then Inl ValueError_reshape
      else if 2 ^ 63 \<le> itemsize (dtype a) * L then Inl ValueError_reshape
      else Inr (rows_of (nat (len a div L)) (nat L) (items a)))"

text \<open>\<^verbatim>\<open>.astype(np.int32)\<close> on one element. From \<^verbatim>\<open>int64\<close> it keeps the low 32
  bits, read as a signed value. From \<^verbatim>\<open>float64\<close> it is the machine's conversion of
  a double to a 32-bit integer: the value itself when that is in \<open>[-2^31, 2^31)\<close>, and
  on x86-64 the bit pattern \<^verbatim>\<open>0x80000000\<close>, that is \<open>-2^31\<close>, for every value
  outside.\<close>

definition astype_int32 :: "dtype \<Rightarrow> int \<Rightarrow> int32" where
  "astype_int32 d v =
     (case d of
        Int64 \<Rightarrow> word_of_int v
      | Float64 \<Rightarrow> if - (2 ^ 31) \<le> v \<and> v < 2 ^ 31 then word_of_int v else word_of_int (- (2 ^ 31)))"

subsection \<open>The cells\<close>

text \<open>Cell 4.1: \<^verbatim>\<open>input_ids = np.concatenate(dataset["input_ids"])\<close>, the token count
  printed, then \<^verbatim>\<open>max_seq_length = L\<close> (the notebook fixes \<open>L = 32\<close>; the row width
  is kept as a parameter here).\<close>

definition cell_concatenate :: "int64 list list \<Rightarrow> int \<Rightarrow> notebook \<Rightarrow> (error + unit) \<times> notebook" where
  "cell_concatenate dataset L s =
     (case np_concatenate dataset of
        Inl e \<Rightarrow> (Inl e, s)
      | Inr a \<Rightarrow>
          let s1 = s\<lparr>input_ids := Some a\<rparr>;
              s2 = py_print (''Total number of concatenated tokens: '' @ py_str (len a)) s1;
              s3 = s2\<lparr>max_seq_length := Some L\<rparr>
          in (Inr (), s3))"

text \<open>Cell 4.2, statement by statement; an exception leaves the bindings made and the
  lines printed before it.\<close>

definition cell_reshape :: "notebook \<Rightarrow> (error + unit) \<times> notebook" where
  "cell_reshape s =
     (case input_ids s of
        None \<Rightarrow> (Inl NameError, s)
      | Some a \<Rightarrow>
         (case max_seq_length s of
            None \<Rightarrow> (Inl NameError, s)
          | Some L \<Rightarrow>
              if L = 0 then (Inl ZeroDivisionError, s)
              else
                let tl = len a - len a mod L;
                    s1 = s\<lparr>total_length := Some tl\<rparr>;
                    s2 = py_print (''Adjusted total length: '' @ py_str tl) s1;
                    a' = a\<lparr>items := slice_to tl (items a)\<rparr>;
                    s3 = s2\<lparr>input_ids := Some a'\<rparr>;
                    s4 = py_print (''Shape after truncation: ('' @ py_str (len a') @ '',)'') s3
                in (case np_reshape L a' of
                      Inl e \<Rightarrow> (Inl e, s4)
                    | Inr rows \<Rightarrow>
                        let reshaped = map (map (astype_int32 (dtype a'))) rows;
                            s5 = s4\<lparr>input_ids_reshaped := Some reshaped\<rparr>;
                            s6 = py_print (''Shape after reshaping: ('' @ py_str (int (length reshaped))
                                             @ '', '' @ py_str L @ '')'') s5
                        in (Inr (), s6))))"

text \<open>The packer: both cells in notebook order, then the rows read back
  (\<^verbatim>\<open>input_ids_reshaped.tolist()\<close>). The result pairs the outcome with the notebook
  left behind.\<close>

definition run_packer :: "notebook \<Rightarrow> int64 list list \<Rightarrow> int \<Rightarrow> (error + int32 list list) \<times> notebook" where
  "run_packer s dataset L =
     (case cell_concatenate dataset L s of
        (Inl e, s1) \<Rightarrow> (Inl e, s1)
      | (Inr _, s1) \<Rightarrow>
         (case cell_reshape s1 of
            (Inl e, s2) \<Rightarrow> (Inl e, s2)
          | (Inr _, s2) \<Rightarrow>
             (case input_ids_reshaped s2 of
                None \<Rightarrow> (Inl NameError, s2)
              | Some rows \<Rightarrow> (Inr rows, s2))))"

definition packer :: "int64 list list \<Rightarrow> int \<Rightarrow> error + int32 list list" where
  "packer dataset L = fst (run_packer fresh dataset L)"

text \<open>The \<^verbatim>\<open>int32\<close> the packer stores for a token id of a collection: the id as the
  concatenation holds it, then the cast.\<close>

abbreviation stored :: "int64 list list \<Rightarrow> int64 \<Rightarrow> int32" where
  "stored seqs x \<equiv> astype_int32 (result_dtype seqs) (element_value (result_dtype seqs) x)"

section \<open>The environment bootstrap of the lesson notebooks\<close>

text \<open>What \<^verbatim>\<open>setup_environment\<close> reads from the machine it runs on: whether
  \<^verbatim>\<open>google.colab\<close> can be imported, whether \<^verbatim>\<open>drive.mount\<close> raises, what
  \<^verbatim>\<open>os.path.ismount('/content/drive')\<close> answers after the mount, the file system
  calls on the project path, the working directory, and whether \<^verbatim>\<open>nvidia-smi\<close>
  exits normally.\<close>

record environment =
  colab_importable :: bool
  mount_raises :: bool
  ismount_drive :: bool
  path_exists :: "string \<Rightarrow> bool"
  makedirs_raises :: "string \<Rightarrow> bool"
  chdir_raises :: "string \<Rightarrow> bool"
  getcwd :: string
  nvidia_smi_ok :: bool

text \<open>\<^verbatim>\<open>os.path.join\<close> and \<^verbatim>\<open>os.path.basename\<close> as \<^verbatim>\<open>posixpath\<close> defines
  them: a component that starts with a slash replaces what came before it, a separator
  is added unless the path so far is empty or ends with one, and the base name is what
  follows the last slash.\<close>

definition join2 :: "string \<Rightarrow> string \<Rightarrow> string" where
  "join2 path b =
     (if b \<noteq> [] \<and> hd b = CHR ''/'' then b
      else if path = [] \<or> last path = CHR ''/'' then path @ b
      else path @ ''/'' @ b)"

definition os_path_join :: "string \<Rightarrow> string list \<Rightarrow> string" where
  "os_path_join a p = foldl join2 a p"

definition os_path_basename :: "string \<Rightarrow> string" where
  "os_path_basename p = rev (takeWhile (\<lambda>c. c \<noteq> CHR ''/'') (rev p))"

text \<open>The remote branch: import, mount, test the mount, build the project path, create
  it when missing, change into it.\<close>

definition remote_run :: "environment \<Rightarrow> string \<Rightarrow> string \<Rightarrow> bool \<Rightarrow> error + string \<times> bool" where
  "remote_run env curr_proj_folder google_drive_base_folder mount_success =
     (if \<not> colab_importable env then Inl ModuleNotFoundError
      else if mount_raises env then Inl MountError
      else
        let mount_success = (if ismount_drive env then True else mount_success);
            mount_path = ''/content/drive/MyDrive'';
            path_to_scripts = os_path_join mount_path [google_drive_base_folder, curr_proj_folder]
        in if \<not> path_exists env path_to_scripts \<and> makedirs_raises env path_to_scripts
           then Inl OSError
           else if chdir_raises env path_to_scripts then Inl OSError
           else Inr (path_to_scripts, mount_success))"

text \<open>The local branch: the working directory, whose last component must be the
  project folder.\<close>

definition local_run :: "environment \<Rightarrow> string \<Rightarrow> bool \<Rightarrow> error + string \<times> bool" where
  "local_run env curr_proj_folder mount_success =
     (let path_to_scripts = getcwd env
      in if os_path_basename path_to_scripts = curr_proj_folder
         then Inr (path_to_scripts, mount_success)
         else Inl AssertionError)"

text \<open>The GPU check: a failing \<^verbatim>\<open>nvidia-smi\<close> is caught and turns the local
  \<^verbatim>\<open>use_gpu\<close> off.\<close>

definition gpu_check :: "environment \<Rightarrow> bool \<Rightarrow> bool" where
  "gpu_check env use_gpu = (if use_gpu then (if nvidia_smi_ok env then use_gpu else False) else use_gpu)"

definition setup_environment ::
  "environment \<Rightarrow> string \<Rightarrow> string \<Rightarrow> bool \<Rightarrow> bool \<Rightarrow> error + string \<times> bool" where
  "setup_environment env curr_proj_folder google_drive_base_folder run_remote use_gpu =
     (let mount_success = False
      in case (if run_remote
               then remote_run env curr_proj_folder google_drive_base_folder mount_success
               else local_run env curr_proj_folder mount_success) of
           Inl e \<Rightarrow> Inl e
         | Inr (path_to_scripts, mount_success) \<Rightarrow>
             let use_gpu = gpu_check env use_gpu
             in Inr (path_to_scripts, mount_success))"

text \<open>The run-mode selection cell: the pair \<^verbatim>\<open>(run_local, run_local_usingColab)\<close> it
  leaves bound.\<close>

definition run_mode_selection :: "bool \<Rightarrow> bool \<times> bool" where
  "run_mode_selection run_remote =
     (if run_remote then
        (let run_local = False; run_local_usingColab = False
         in (run_local, run_local_usingColab))
      else
        (let run_local = False; run_local_usingColab = (\<not> run_local)
         in (run_local, run_local_usingColab)))"

section \<open>Row-major views\<close>

lemma length_rows_of: "length (rows_of k w xs) = k"
  by (induction k arbitrary: xs) simp_all

lemma rows_of_width: "k * w \<le> length xs \<Longrightarrow> r \<in> set (rows_of k w xs) \<Longrightarrow> length r = w"
proof (induction k arbitrary: xs)
  case 0
  then show ?case by simp
next
  case (Suc k)
  from Suc.prems(1) have le: "w \<le> length xs" and rest: "k * w \<le> length (drop w xs)"
    by simp_all
  from Suc.prems(2) consider "r = take w xs" | "r \<in> set (rows_of k w (drop w xs))"
    by auto
  then show ?case
  proof cases
    case 1
    with le show ?thesis by simp
  next
    case 2
    with Suc.IH [OF rest] show ?thesis .
  qed
qed

lemma concat_rows_of: "concat (rows_of k w xs) = take (k * w) xs"
proof (induction k arbitrary: xs)
  case 0
  then show ?case by simp
next
  case (Suc k)
  have "take w xs @ take (k * w) (drop w xs) = take (w + k * w) xs"
    by (simp add: take_add)
  with Suc.IH show ?case by simp
qed

lemma nth_rows_of: "i < k \<Longrightarrow> rows_of k w xs ! i = take w (drop (i * w) xs)"
proof (induction k arbitrary: xs i)
  case 0
  then show ?case by simp
next
  case (Suc k)
  show ?case
  proof (cases i)
    case 0
    then show ?thesis by simp
  next
    case (Suc j)
    with Suc.prems have "j < k" by simp
    from Suc.IH [OF this, of "drop w xs"] Suc show ?thesis
      by (simp add: add.commute)
  qed
qed

lemma rows_of_map: "rows_of k w (map f xs) = map (map f) (rows_of k w xs)"
  by (induction k arbitrary: xs) (simp_all add: take_map drop_map)

section \<open>What the packing cells compute\<close>

lemma kept_length:
  fixes n :: nat and L :: int
  assumes "0 < L"
  shows "int n - int n mod L = int (n - n mod nat L)"
proof -
  from assms have L: "L = int (nat L)" by simp
  have "int n mod int (nat L) = int (n mod nat L)" by (simp add: zmod_int)
  moreover have "n mod nat L \<le> n" by simp
  ultimately have "int n - int n mod int (nat L) = int (n - n mod nat L)"
    by simp
  with L show ?thesis by simp
qed

lemma kept_is_rows: "n - n mod w = n div w * (w::nat)"
  by (simp add: minus_mod_eq_div_mult)

lemma slice_to_nat: "slice_to (int k) xs = take k xs"
  by (simp add: slice_to_def)

lemma slice_to_beyond: "int (length xs) \<le> k \<Longrightarrow> slice_to k xs = xs"
  by (simp add: slice_to_def)

lemma len_concatenated: "len (concatenated seqs) = int (length (concat seqs))"
  by (simp add: len_def concatenated_def)

lemma np_reshape_kept:
  assumes L: "0 < L" and small: "L < 2 ^ 60"
  shows "np_reshape L \<lparr>dtype = d, items = take (length xs - length xs mod nat L) xs\<rparr>
           = Inr (rows_of (length xs div nat L) (nat L)
                    (take (length xs - length xs mod nat L) xs))"
proof -
  let ?n = "length xs"
  let ?w = "nat L"
  let ?m = "?n - ?n mod ?w"
  let ?a = "\<lparr>dtype = d, items = take ?m xs\<rparr>"
  from L have w: "0 < ?w" by simp
  have len: "len ?a = int ?m" by (simp add: len_def)
  have tl: "int ?n - int ?n mod L = int ?m" using L by (rule kept_length)
  have dvd: "int ?m mod L = 0"
  proof -
    have "(int ?n - int ?n mod L) mod L = 0" by (simp add: minus_mod_eq_mult_div)
    then show ?thesis by (simp only: tl)
  qed
  have "?m div ?w = ?n div ?w" using w by (simp add: minus_mod_eq_mult_div)
  then have "int ?m div int ?w = int (?n div ?w)" by (simp only: zdiv_int [symmetric])
  with L have dv: "nat (int ?m div L) = ?n div ?w" by simp
  from small have fits: "\<not> 2 ^ 63 \<le> itemsize (dtype ?a) * L"
    by (simp add: itemsize_def split: dtype.split)
  from L have "\<not> L < 0" and "L \<noteq> 0" by simp_all
  with dvd fits show ?thesis
    unfolding np_reshape_def by (simp only: len dv) simp
qed

lemma np_reshape_huge:
  assumes "2 ^ 60 \<le> L"
  shows "np_reshape L a = Inl ValueError_reshape"
proof -
  from assms have "2 ^ 63 \<le> itemsize (dtype a) * L"
    by (simp add: itemsize_def split: dtype.split)
  then show ?thesis by (simp add: np_reshape_def)
qed

lemma np_reshape_negative: "L < 0 \<Longrightarrow> np_reshape L a = Inl ValueError_reshape"
  by (simp add: np_reshape_def)

lemma run_packer_empty: "run_packer s [] L = (Inl ValueError_concatenate, s)"
  by (simp add: run_packer_def cell_concatenate_def np_concatenate_def)

lemma cell_concatenate_ok:
  assumes "seqs \<noteq> []"
  shows "cell_concatenate seqs L s =
    (Inr (), s\<lparr>input_ids := Some (concatenated seqs), max_seq_length := Some L,
               stdout := stdout s @ [''Total number of concatenated tokens: ''
                                      @ py_str (int (length (concat seqs)))]\<rparr>)"
  using assms
  by (simp add: cell_concatenate_def np_concatenate_def py_print_def len_concatenated Let_def)

lemma run_packer_zero:
  assumes "seqs \<noteq> []"
  shows "run_packer s seqs 0 =
    (Inl ZeroDivisionError,
     s\<lparr>input_ids := Some (concatenated seqs), max_seq_length := Some 0,
       stdout := stdout s @ [''Total number of concatenated tokens: ''
                              @ py_str (int (length (concat seqs)))]\<rparr>)"
  by (simp add: run_packer_def cell_concatenate_ok [OF assms] cell_reshape_def)

lemma run_packer_negative:
  assumes L: "L < 0" and ne: "seqs \<noteq> []"
  shows "run_packer s seqs L =
    (Inl ValueError_reshape,
     s\<lparr>input_ids := Some (concatenated seqs), max_seq_length := Some L,
       total_length := Some (int (length (concat seqs)) - int (length (concat seqs)) mod L),
       stdout := stdout s @
         [''Total number of concatenated tokens: '' @ py_str (int (length (concat seqs))),
          ''Adjusted total length: ''
             @ py_str (int (length (concat seqs)) - int (length (concat seqs)) mod L),
          ''Shape after truncation: ('' @ py_str (int (length (concat seqs))) @ '',)'']\<rparr>)"
proof -
  let ?a = "concatenated seqs"
  let ?n = "int (length (concat seqs))"
  have n: "len ?a = ?n" by (rule len_concatenated)
  have items: "length (items ?a) = length (concat seqs)" by (simp add: concatenated_def)
  from L have "?n mod L \<le> 0" by (rule neg_mod_sign)
  then have "int (length (items ?a)) \<le> ?n - ?n mod L" by (simp add: items)
  then have sl: "slice_to (?n - ?n mod L) (items ?a) = items ?a" by (rule slice_to_beyond)
  have same: "?a\<lparr>items := items ?a\<rparr> = ?a" by simp
  from L have L0: "L \<noteq> 0" by simp
  show ?thesis
    unfolding run_packer_def cell_concatenate_ok [OF ne] cell_reshape_def
    using L0 by (simp add: n sl same np_reshape_negative [OF L] py_print_def Let_def)
qed

lemma run_packer_huge:
  assumes big: "2 ^ 60 \<le> L" and ne: "seqs \<noteq> []"
  shows "fst (run_packer s seqs L) = Inl ValueError_reshape
         \<and> input_ids_reshaped (snd (run_packer s seqs L)) = input_ids_reshaped s"
proof -
  from big have L0: "L \<noteq> 0" by simp
  show ?thesis
    unfolding run_packer_def cell_concatenate_ok [OF ne] cell_reshape_def
    using L0 by (simp add: np_reshape_huge [OF big] py_print_def Let_def)
qed

lemma run_packer_pos:
  fixes seqs :: "int64 list list" and L :: int
  defines "d \<equiv> result_dtype seqs"
  defines "n \<equiv> length (concat seqs)"
  defines "m \<equiv> length (concat seqs) - length (concat seqs) mod nat L"
  defines "kept \<equiv> take m (map (element_value d) (concat seqs))"
  defines "rows \<equiv> map (map (astype_int32 d)) (rows_of (n div nat L) (nat L) kept)"
  assumes L: "0 < L" and small: "L < 2 ^ 60" and ne: "seqs \<noteq> []"
  shows "run_packer s seqs L =
    (Inr rows,
     s\<lparr>input_ids := Some \<lparr>dtype = d, items = kept\<rparr>,
       max_seq_length := Some L,
       total_length := Some (int m),
       input_ids_reshaped := Some rows,
       stdout := stdout s @
         [''Total number of concatenated tokens: '' @ py_str (int n),
          ''Adjusted total length: '' @ py_str (int m),
          ''Shape after truncation: ('' @ py_str (int m) @ '',)'',
          ''Shape after reshaping: ('' @ py_str (int (n div nat L)) @ '', '' @ py_str L @ '')'']\<rparr>)"
proof -
  let ?a = "concatenated seqs"
  have len: "len ?a = int n" unfolding n_def by (rule len_concatenated)
  have items: "items ?a = map (element_value d) (concat seqs)" and dt: "dtype ?a = d"
    by (simp_all add: concatenated_def d_def)
  have n': "length (items ?a) = n" by (simp add: items n_def)
  have tl: "int n - int n mod L = int m" unfolding n_def m_def using L by (rule kept_length)
  have sl: "slice_to (int m) (items ?a) = kept" by (simp only: slice_to_nat items kept_def)
  have a': "?a\<lparr>items := kept\<rparr> = \<lparr>dtype = d, items = kept\<rparr>"
    by (simp add: concatenated_def d_def)
  have lenk: "len \<lparr>dtype = d, items = kept\<rparr> = int m"
    by (simp add: len_def kept_def m_def)
  have "length (map (element_value d) (concat seqs)) = n" by (simp add: n_def)
  with np_reshape_kept [OF L small, of d "map (element_value d) (concat seqs)"]
  have rs: "np_reshape L \<lparr>dtype = d, items = kept\<rparr> = Inr (rows_of (n div nat L) (nat L) kept)"
    by (simp only: kept_def m_def n_def)
  have nrows: "length rows = n div nat L" by (simp add: rows_def length_rows_of)
  from L have L0: "L \<noteq> 0" by simp
  show ?thesis
    unfolding run_packer_def cell_concatenate_ok [OF ne] cell_reshape_def
    using L0
    by (simp add: len tl sl a' lenk rs nrows rows_def [symmetric] n_def [symmetric]
          py_print_def Let_def del: of_nat_diff)
qed

lemma bit_length_le: "n < 2 ^ k \<Longrightarrow> bit_length n \<le> k"
proof (induction k arbitrary: n)
  case 0
  then have "n \<le> 0" by simp
  then show ?case by (simp add: bit_length.simps)
next
  case (Suc k)
  show ?case
  proof (cases "n \<le> 0")
    case True
    then show ?thesis by (simp add: bit_length.simps)
  next
    case False
    from Suc.prems have "n div 2 < 2 ^ k" by simp
    then have "bit_length (n div 2) \<le> k" by (rule Suc.IH)
    with False show ?thesis by (simp add: bit_length.simps [of n])
  qed
qed

lemma float64_of_int_exact:
  assumes "\<bar>x\<bar> < 2 ^ 53"
  shows "float64_of_int x = x"
proof -
  from assms have "bit_length \<bar>x\<bar> \<le> 53" by (rule bit_length_le)
  then show ?thesis by (simp add: float64_of_int_def Let_def)
qed

lemma sint_int32_of_int:
  "sint (word_of_int v :: int32) = (v + 2 ^ 31) mod 2 ^ 32 - 2 ^ 31"
  by (simp only: sint_sbintrunc' signed_take_bit_eq_take_bit_shift take_bit_eq_mod) simp

lemma sint_int32_of_int_in_range:
  assumes "- (2 ^ 31) \<le> v" and "v < 2 ^ 31"
  shows "sint (word_of_int v :: int32) = v"
proof -
  from assms have "0 \<le> v + 2 ^ 31" and "v + 2 ^ 31 < 2 ^ 32" by simp_all
  then have "(v + 2 ^ 31) mod 2 ^ 32 = v + 2 ^ 31" by (rule mod_pos_pos_trivial)
  then show ?thesis by (simp add: sint_int32_of_int)
qed

lemma stored_int64:
  assumes "[] \<notin> set seqs"
  shows "stored seqs x = word_of_int (sint x)"
  using assms by (simp add: result_dtype_def element_value_def astype_int32_def)

lemma sint_stored_int64:
  assumes "[] \<notin> set seqs"
  shows "sint (stored seqs x) = (sint x + 2 ^ 31) mod 2 ^ 32 - 2 ^ 31"
  by (simp only: stored_int64 [OF assms] sint_int32_of_int)

lemma sint_stored_in_range:
  assumes lo: "- (2 ^ 31) \<le> sint x" and hi: "sint x < 2 ^ 31"
  shows "sint (stored seqs x) = sint x"
proof (cases "result_dtype seqs")
  case Int64
  then have "stored seqs x = word_of_int (sint x)"
    by (simp add: element_value_def astype_int32_def)
  with lo hi show ?thesis by (simp only: sint_int32_of_int_in_range)
next
  case Float64
  from lo hi have "\<bar>sint x\<bar> < 2 ^ 53" by simp
  then have "float64_of_int (sint x) = sint x" by (rule float64_of_int_exact)
  with Float64 lo hi have "stored seqs x = word_of_int (sint x)"
    by (simp add: element_value_def astype_int32_def)
  with lo hi show ?thesis by (simp only: sint_int32_of_int_in_range)
qed

lemma packer_pos:
  assumes "0 < L" and "L < 2 ^ 60" and "seqs \<noteq> []"
  shows "packer seqs L = Inr (map (map (stored seqs))
            (rows_of (length (concat seqs) div nat L) (nat L)
               (take (length (concat seqs) - length (concat seqs) mod nat L) (concat seqs))))"
  unfolding packer_def
  by (simp only: run_packer_pos [OF assms] fst_conv take_map rows_of_map map_map comp_def)

lemma chunk_of_kept:
  assumes "i < length xs div w"
  shows "take w (drop (i * w) (take (length xs - length xs mod w) xs)) = take w (drop (i * w) xs)"
proof -
  from assms have "Suc i \<le> length xs div w" by simp
  then have "Suc i * w \<le> length xs div w * w" by (rule mult_le_mono1)
  then have "w \<le> length xs div w * w - i * w" by simp
  then have "min w (length xs - length xs mod w - i * w) = w"
    by (simp add: kept_is_rows)
  then show ?thesis by (simp add: drop_take)
qed

lemma packer_rows:
  assumes "0 < L" and "L < 2 ^ 60" and "seqs \<noteq> []"
  shows "\<exists>rows. packer seqs L = Inr rows
           \<and> length rows = length (concat seqs) div nat L
           \<and> (\<forall>i < length rows.
                 rows ! i = map (stored seqs) (take (nat L) (drop (i * nat L) (concat seqs))))"
proof -
  let ?T = "concat seqs"
  let ?w = "nat L"
  let ?rows = "map (map (stored seqs))
     (rows_of (length ?T div ?w) ?w (take (length ?T - length ?T mod ?w) ?T))"
  have "packer seqs L = Inr ?rows" using assms by (rule packer_pos)
  moreover have "length ?rows = length ?T div ?w" by (simp add: length_rows_of)
  moreover have "\<forall>i < length ?rows. ?rows ! i = map (stored seqs) (take ?w (drop (i * ?w) ?T))"
  proof (intro allI impI)
    fix i assume "i < length ?rows"
    then have i: "i < length ?T div ?w" by (simp add: length_rows_of)
    then have "rows_of (length ?T div ?w) ?w (take (length ?T - length ?T mod ?w) ?T) ! i
                 = take ?w (drop (i * ?w) ?T)"
      by (simp only: nth_rows_of chunk_of_kept)
    with i show "?rows ! i = map (stored seqs) (take ?w (drop (i * ?w) ?T))"
      by (simp add: length_rows_of)
  qed
  ultimately show ?thesis by blast
qed

lemma packer_cells:
  assumes "0 < L" and "L < 2 ^ 60" and "seqs \<noteq> []"
  shows "\<exists>rows. packer seqs L = Inr rows
           \<and> (\<forall>i < length rows. \<forall>j < nat L.
                 i * nat L + j < length (concat seqs)
                 \<and> rows ! i ! j = stored seqs (concat seqs ! (i * nat L + j)))"
proof -
  let ?T = "concat seqs"
  let ?w = "nat L"
  from assms obtain rows where out: "packer seqs L = Inr rows"
    and len: "length rows = length ?T div ?w"
    and chunk: "\<forall>i < length rows. rows ! i = map (stored seqs) (take ?w (drop (i * ?w) ?T))"
    using packer_rows by blast
  have "i * ?w + j < length ?T \<and> rows ! i ! j = stored seqs (?T ! (i * ?w + j))"
    if i: "i < length rows" and j: "j < ?w" for i j
  proof -
    from i len have "Suc i \<le> length ?T div ?w" by simp
    then have "Suc i * ?w \<le> length ?T div ?w * ?w" by (rule mult_le_mono1)
    also have "\<dots> \<le> length ?T" by (rule div_times_less_eq_dividend)
    finally have fit: "i * ?w + ?w \<le> length ?T" by (simp add: add.commute)
    with j have inside: "i * ?w + j < length ?T" by simp
    from fit j have "j < length (take ?w (drop (i * ?w) ?T))" by simp
    then have "map (stored seqs) (take ?w (drop (i * ?w) ?T)) ! j
                 = stored seqs (take ?w (drop (i * ?w) ?T) ! j)"
      by (rule nth_map)
    also from j inside have "take ?w (drop (i * ?w) ?T) ! j = ?T ! (i * ?w + j)"
      by simp
    finally have "rows ! i ! j = stored seqs (?T ! (i * ?w + j))" using chunk i by simp
    with inside show ?thesis by simp
  qed
  with out show ?thesis by blast
qed

lemma packer_empty: "packer [] L = Inl ValueError_concatenate"
  by (simp add: packer_def run_packer_empty)

lemma packer_huge:
  assumes "2 ^ 60 \<le> L" and "seqs \<noteq> []"
  shows "packer seqs L = Inl ValueError_reshape"
  unfolding packer_def using run_packer_huge [OF assms] by simp

lemma run_packer_outcome_independent:
  "fst (run_packer s seqs L) = fst (run_packer s' seqs L)"
  by (simp add: run_packer_def cell_concatenate_def cell_reshape_def py_print_def Let_def
        split: sum.split option.split)

lemma run_packer_prints:
  "stdout (snd (run_packer s seqs L)) = stdout s @ stdout (snd (run_packer fresh seqs L))"
  by (simp add: run_packer_def cell_concatenate_def cell_reshape_def py_print_def Let_def fresh_def
        split: sum.split option.split)

section \<open>Properties of the packer\<close>

text \<open>
  C1. For every collection of token sequences and every positive row width \<open>L\<close>, each
  row of the packer's output has exactly \<open>L\<close> elements, and the rows together hold
  \<open>floor(total / L) * L\<close> elements, where \<open>total\<close> is the sum of the lengths of the
  input sequences. The packer returns rows for every non-empty collection and every
  \<open>L\<close> below \<open>2^60\<close>; for the empty collection \<^verbatim>\<open>np.concatenate\<close> raises and from
  \<open>L = 2^60\<close> on \<^verbatim>\<open>reshape\<close> raises, and then there are no rows to speak of.
\<close>

theorem packer_row_width_and_count:
  assumes "0 < L"
  shows "(seqs = [] \<and> packer seqs L = Inl ValueError_concatenate)
         \<or> (seqs \<noteq> [] \<and> 2 ^ 60 \<le> L \<and> packer seqs L = Inl ValueError_reshape)
         \<or> (seqs \<noteq> [] \<and> L < 2 ^ 60
              \<and> (\<exists>rows. packer seqs L = Inr rows
                    \<and> (\<forall>r \<in> set rows. int (length r) = L)
                    \<and> int (sum_list (map length rows))
                        = int (sum_list (map length seqs)) div L * L))"
proof -
  consider "seqs = []" | "seqs \<noteq> []" "2 ^ 60 \<le> L" | "seqs \<noteq> []" "L < 2 ^ 60"
    by fastforce
  then show ?thesis
  proof cases
    case 1
    then show ?thesis by (simp add: packer_empty)
  next
    case 2
    then show ?thesis by (simp add: packer_huge)
  next
    case 3
    let ?T = "concat seqs"
    let ?w = "nat L"
    let ?kept = "take (length ?T - length ?T mod ?w) ?T"
    let ?raw = "rows_of (length ?T div ?w) ?w ?kept"
    let ?rows = "map (map (stored seqs)) ?raw"
    have fits: "length ?T div ?w * ?w \<le> length ?kept"
      by (simp add: kept_is_rows)
    have out: "packer seqs L = Inr ?rows" using assms 3(2) 3(1) by (rule packer_pos)
    have width: "\<forall>r \<in> set ?rows. int (length r) = L"
    proof
      fix r assume "r \<in> set ?rows"
      then obtain q where q: "q \<in> set ?raw" and r: "r = map (stored seqs) q" by auto
      from fits q have "length q = ?w" by (rule rows_of_width)
      with r assms show "int (length r) = L" by simp
    qed
    have "sum_list (map length ?rows) = length (concat ?raw)"
      by (simp add: length_concat comp_def)
    also have "\<dots> = length ?T div ?w * ?w"
      by (simp add: concat_rows_of kept_is_rows)
    finally have "int (sum_list (map length ?rows)) = int (length ?T div ?w) * int ?w" by simp
    also have "\<dots> = int (length ?T) div L * L" using assms by (simp add: zdiv_int)
    finally have count: "int (sum_list (map length ?rows)) = int (sum_list (map length seqs)) div L * L"
      by (simp add: length_concat)
    from 3 out width count show ?thesis by blast
  qed
qed

theorem packer_row_width_and_count_witness:
  "(0::int) < 2 \<and> (\<exists>rows. packer [[1, 2, 3], [4, 5]] 2 = Inr rows
      \<and> (\<forall>r \<in> set rows. int (length r) = 2)
      \<and> int (sum_list (map length rows)) = 4)"
  using packer_row_width_and_count [of 2 "[[1, 2, 3], [4, 5]]"] by simp

text \<open>
  C2, as the code has it. For every collection and every positive row width \<open>L\<close> the
  packer either raises (\<^verbatim>\<open>np.concatenate\<close> on the empty collection, \<^verbatim>\<open>reshape\<close>
  from \<open>L = 2^60\<close> on) or returns \<open>floor(n / L)\<close> rows, \<open>n\<close> the length of the
  flattened concatenation taken in collection order, and row \<open>i\<close> is the
  \<^verbatim>\<open>int32\<close> cast of the elements at positions \<open>[i*L, (i+1)*L)\<close> of that
  concatenation, in the same order. When no sequence is empty the cast keeps the low 32
  bits of each id. When every token id lies in \<open>[-2^31, 2^31)\<close>, row \<open>i\<close> holds exactly
  those elements.
\<close>

theorem packer_rows_are_cast_chunks:
  assumes "0 < L"
  shows "(seqs = [] \<and> packer seqs L = Inl ValueError_concatenate)
         \<or> (seqs \<noteq> [] \<and> 2 ^ 60 \<le> L \<and> packer seqs L = Inl ValueError_reshape)
         \<or> (seqs \<noteq> [] \<and> L < 2 ^ 60
              \<and> (\<exists>rows. packer seqs L = Inr rows
                    \<and> length rows = length (concat seqs) div nat L
                    \<and> (\<forall>i < length rows.
                          rows ! i = map (stored seqs)
                                       (take (nat L) (drop (i * nat L) (concat seqs))))
                    \<and> ([] \<notin> set seqs \<longrightarrow>
                        (\<forall>i < length rows.
                          rows ! i = map (\<lambda>x. word_of_int (sint x))
                                       (take (nat L) (drop (i * nat L) (concat seqs)))))
                    \<and> ((\<forall>x \<in> set (concat seqs). - (2 ^ 31) \<le> sint x \<and> sint x < 2 ^ 31) \<longrightarrow>
                        (\<forall>i < length rows.
                          map sint (rows ! i)
                            = map sint (take (nat L) (drop (i * nat L) (concat seqs)))))))"
proof -
  consider "seqs = []" | "seqs \<noteq> []" "2 ^ 60 \<le> L" | "seqs \<noteq> []" "L < 2 ^ 60"
    by fastforce
  then show ?thesis
  proof cases
    case 1
    then show ?thesis by (simp add: packer_empty)
  next
    case 2
    then show ?thesis by (simp add: packer_huge)
  next
    case 3
    from assms 3 obtain rows where out: "packer seqs L = Inr rows"
      and len: "length rows = length (concat seqs) div nat L"
      and chunk: "\<forall>i < length rows.
         rows ! i = map (stored seqs) (take (nat L) (drop (i * nat L) (concat seqs)))"
      using packer_rows by blast
    have wrap: "\<forall>i < length rows.
            rows ! i = map (\<lambda>x. word_of_int (sint x)) (take (nat L) (drop (i * nat L) (concat seqs)))"
      if "[] \<notin> set seqs"
    proof -
      from that have "stored seqs = (\<lambda>x. word_of_int (sint x))"
        by (intro ext) (rule stored_int64)
      with chunk show ?thesis by (simp only:)
    qed
    have same: "\<forall>i < length rows.
            map sint (rows ! i) = map sint (take (nat L) (drop (i * nat L) (concat seqs)))"
      if range: "\<forall>x \<in> set (concat seqs). - (2 ^ 31) \<le> sint x \<and> sint x < 2 ^ 31"
    proof (intro allI impI)
      fix i assume "i < length rows"
      with chunk have row: "rows ! i = map (stored seqs) (take (nat L) (drop (i * nat L) (concat seqs)))"
        by simp
      have "sint (stored seqs x) = sint x"
        if "x \<in> set (take (nat L) (drop (i * nat L) (concat seqs)))" for x
      proof -
        from that have "x \<in> set (concat seqs)"
          by (meson in_set_takeD in_set_dropD)
        with range have "- (2 ^ 31) \<le> sint x" and "sint x < 2 ^ 31" by blast+
        then show ?thesis by (rule sint_stored_in_range)
      qed
      with row show "map sint (rows ! i) = map sint (take (nat L) (drop (i * nat L) (concat seqs)))"
        by simp
    qed
    from out len chunk wrap same
    have "\<exists>rows. packer seqs L = Inr rows
                    \<and> length rows = length (concat seqs) div nat L
                    \<and> (\<forall>i < length rows.
                          rows ! i = map (stored seqs)
                                       (take (nat L) (drop (i * nat L) (concat seqs))))
                    \<and> ([] \<notin> set seqs \<longrightarrow>
                        (\<forall>i < length rows.
                          rows ! i = map (\<lambda>x. word_of_int (sint x))
                                       (take (nat L) (drop (i * nat L) (concat seqs)))))
                    \<and> ((\<forall>x \<in> set (concat seqs). - (2 ^ 31) \<le> sint x \<and> sint x < 2 ^ 31) \<longrightarrow>
                        (\<forall>i < length rows.
                          map sint (rows ! i)
                            = map sint (take (nat L) (drop (i * nat L) (concat seqs)))))"
      by blast
    with 3 show ?thesis by blast
  qed
qed

theorem packer_rows_are_cast_chunks_witness:
  "(0::int) < 2
   \<and> (\<exists>rows. packer [[1, 2, 3], [4, 5]] 2 = Inr rows \<and> length rows = 2
      \<and> rows ! 0 = [1, 2] \<and> map sint (rows ! 1) = [3, 4])"
proof -
  have range: "\<forall>x \<in> set (concat [[1, 2, 3], [4, 5 :: int64]]). - (2 ^ 31) \<le> sint x \<and> sint x < 2 ^ 31"
    by simp
  have noempty: "[] \<notin> set [[1, 2, 3], [4, 5 :: int64]]" by simp
  have pos: "(0::int) < 2" by simp
  have here: "[[1, 2, 3], [4, 5 :: int64]] \<noteq> []" "\<not> (2 ^ 60 \<le> (2::int))" by simp_all
  from packer_rows_are_cast_chunks [OF pos, of "[[1, 2, 3], [4, 5]]"] here
  obtain rows where out: "packer [[1, 2, 3], [4, 5]] 2 = Inr rows"
    and len: "length rows = length (concat [[1, 2, 3], [4, 5 :: int64]]) div nat 2"
    and wrap: "[] \<notin> set [[1, 2, 3], [4, 5 :: int64]] \<longrightarrow> (\<forall>i < length rows.
       rows ! i = map (\<lambda>x. word_of_int (sint x))
                    (take (nat 2) (drop (i * nat 2) (concat [[1, 2, 3], [4, 5 :: int64]]))))"
    and val: "(\<forall>x \<in> set (concat [[1, 2, 3], [4, 5 :: int64]]). - (2 ^ 31) \<le> sint x \<and> sint x < 2 ^ 31) \<longrightarrow>
       (\<forall>i < length rows.
          map sint (rows ! i) = map sint (take (nat 2) (drop (i * nat 2) (concat [[1, 2, 3], [4, 5 :: int64]]))))"
    by blast
  from len have len2: "length rows = 2" by simp
  from wrap noempty len2 have "rows ! 0 = map (\<lambda>x. word_of_int (sint x))
       (take (nat 2) (drop (0 * nat 2) (concat [[1, 2, 3], [4, 5 :: int64]])))"
    by simp
  then have r0: "rows ! 0 = [1, 2]" by simp
  from val range len2 have "map sint (rows ! 1) = map sint (take (nat 2) (drop (1 * nat 2) (concat [[1, 2, 3], [4, 5 :: int64]])))"
    by simp
  then have r1: "map sint (rows ! 1) = [3, 4]" by simp
  have "\<exists>rows. packer [[1, 2, 3], [4, 5]] 2 = Inr rows \<and> length rows = 2
      \<and> rows ! 0 = [1, 2] \<and> map sint (rows ! 1) = [3, 4]"
  proof (intro exI conjI)
    show "packer [[1, 2, 3], [4, 5]] 2 = Inr rows" by (rule out)
    show "length rows = 2" by (rule len2)
    show "rows ! 0 = [1, 2]" by (rule r0)
    show "map sint (rows ! 1) = [3, 4]" by (rule r1)
  qed
  with pos show ?thesis by (intro conjI)
qed

text \<open>
  C2 as stated fails where the cast changes a value: the single token \<open>2^31\<close> with row
  width 1 comes back as \<open>-2^31\<close>, so row 0 is not the chunk of the concatenation at
  positions \<open>[0, 1)\<close>.
\<close>

theorem packer_cast_counterexample:
  "packer [[2147483648]] 1 = Inr [[- 2147483648]]
   \<and> map sint [- 2147483648 :: int32]
       \<noteq> map sint (take 1 (drop (0 * 1) (concat [[2147483648 :: int64]])))"
  by code_simp

text \<open>
  C3, as the code has it. For every non-empty collection and every \<open>L \<le> 0\<close> the packer
  raises and binds no output rows: \<^verbatim>\<open>ZeroDivisionError\<close> from the length computation
  when \<open>L = 0\<close>, \<^verbatim>\<open>ValueError\<close> from \<^verbatim>\<open>reshape\<close> when \<open>L < 0\<close>. There is no
  check of \<open>L\<close> ahead of the work: when the exception is raised the concatenation has
  already run, \<^verbatim>\<open>input_ids\<close> is bound to it and its length has been printed.
\<close>

theorem packer_nonpositive_width_fails:
  assumes "L \<le> 0" and "seqs \<noteq> []"
  shows "fst (run_packer s seqs L) = Inl (if L = 0 then ZeroDivisionError else ValueError_reshape)
         \<and> input_ids (snd (run_packer s seqs L)) = Some (concatenated seqs)
         \<and> items (concatenated seqs) = map (element_value (result_dtype seqs)) (concat seqs)
         \<and> total_length (snd (run_packer s seqs L))
             = (if L = 0 then total_length s
                else Some (int (length (concat seqs)) - int (length (concat seqs)) mod L))
         \<and> input_ids_reshaped (snd (run_packer s seqs L)) = input_ids_reshaped s
         \<and> stdout (snd (run_packer s seqs L)) \<noteq> stdout s"
proof (cases "L = 0")
  case True
  with assms(2) show ?thesis by (simp add: run_packer_zero concatenated_def)
next
  case False
  with assms(1) have "L < 0" by simp
  from run_packer_negative [OF this assms(2)] False show ?thesis by (simp add: concatenated_def)
qed

theorem packer_nonpositive_width_fails_witness:
  "(- 1 :: int) \<le> 0 \<and> (0 :: int) \<le> 0 \<and> [[1, 2, 3 :: int64]] \<noteq> []
   \<and> packer [[1, 2, 3]] (- 1) = Inl ValueError_reshape
   \<and> input_ids (snd (run_packer fresh [[1, 2, 3]] (- 1))) = Some \<lparr>dtype = Int64, items = [1, 2, 3]\<rparr>
   \<and> total_length (snd (run_packer fresh [[1, 2, 3]] (- 1))) = Some 3
   \<and> input_ids_reshaped (snd (run_packer fresh [[1, 2, 3]] (- 1))) = None
   \<and> packer [[1, 2, 3]] 0 = Inl ZeroDivisionError
   \<and> input_ids (snd (run_packer fresh [[1, 2, 3]] 0)) = Some \<lparr>dtype = Int64, items = [1, 2, 3]\<rparr>
   \<and> total_length (snd (run_packer fresh [[1, 2, 3]] 0)) = None
   \<and> input_ids_reshaped (snd (run_packer fresh [[1, 2, 3]] 0)) = None"
  using packer_nonpositive_width_fails [of "- 1" "[[1, 2, 3]]" fresh]
    packer_nonpositive_width_fails [of 0 "[[1, 2, 3]]" fresh]
  by (simp add: packer_def fresh_def concatenated_def result_dtype_def element_value_def)

text \<open>
  C3 as stated fails on when the failure comes: with \<open>L = 0\<close> the run ends in
  \<^verbatim>\<open>ZeroDivisionError\<close> with \<^verbatim>\<open>input_ids\<close> already bound to the concatenation, and
  with \<open>L = -1\<close> it ends in the \<^verbatim>\<open>ValueError\<close> of \<^verbatim>\<open>reshape\<close> after
  \<^verbatim>\<open>total_length\<close> has been computed too.
\<close>

theorem packer_zero_width_counterexample:
  "fst (run_packer fresh [[1, 2, 3]] 0) = Inl ZeroDivisionError
   \<and> input_ids (snd (run_packer fresh [[1, 2, 3]] 0)) = Some \<lparr>dtype = Int64, items = [1, 2, 3]\<rparr>
   \<and> stdout (snd (run_packer fresh [[1, 2, 3]] 0)) = [''Total number of concatenated tokens: 3'']
   \<and> snd (run_packer fresh [[1, 2, 3]] 0) \<noteq> fresh
   \<and> fst (run_packer fresh [[1, 2, 3]] (- 1)) = Inl ValueError_reshape
   \<and> total_length (snd (run_packer fresh [[1, 2, 3]] (- 1))) = Some 3"
proof -
  have run: "fst (run_packer fresh [[1, 2, 3]] 0) = Inl ZeroDivisionError
     \<and> input_ids (snd (run_packer fresh [[1, 2, 3]] 0)) = Some \<lparr>dtype = Int64, items = [1, 2, 3]\<rparr>
     \<and> stdout (snd (run_packer fresh [[1, 2, 3]] 0)) = [''Total number of concatenated tokens: 3'']
     \<and> fst (run_packer fresh [[1, 2, 3]] (- 1)) = Inl ValueError_reshape
     \<and> total_length (snd (run_packer fresh [[1, 2, 3]] (- 1))) = Some 3"
    by code_simp
  have "input_ids fresh = None" by (simp add: fresh_def)
  with run have "snd (run_packer fresh [[1, 2, 3]] 0) \<noteq> fresh" by auto
  with run show ?thesis by simp
qed

text \<open>
  C4, as the code has it. For every positive row width \<open>L\<close> below \<open>2^60\<close>, a
  non-empty collection whose sequences are all empty, or whose token count is below
  \<open>L\<close>, packs successfully into an empty collection of rows. For the empty collection
  \<^verbatim>\<open>np.concatenate\<close> raises \<^verbatim>\<open>ValueError\<close>, and for a non-empty collection and
  \<open>L \<ge> 2^60\<close> \<^verbatim>\<open>reshape\<close> raises \<^verbatim>\<open>ValueError\<close>; nothing is produced then.
\<close>

theorem packer_too_few_tokens:
  assumes "0 < L"
  shows "(seqs = [] \<longrightarrow> packer seqs L = Inl ValueError_concatenate)
         \<and> (seqs \<noteq> [] \<and> 2 ^ 60 \<le> L \<longrightarrow> packer seqs L = Inl ValueError_reshape)
         \<and> (seqs \<noteq> [] \<and> L < 2 ^ 60
              \<and> ((\<forall>q \<in> set seqs. q = []) \<or> int (sum_list (map length seqs)) < L)
              \<longrightarrow> packer seqs L = Inr [])"
proof (intro conjI impI)
  assume "seqs = []"
  then show "packer seqs L = Inl ValueError_concatenate" by (simp add: packer_empty)
next
  assume "seqs \<noteq> [] \<and> 2 ^ 60 \<le> L"
  then show "packer seqs L = Inl ValueError_reshape" by (simp add: packer_huge)
next
  assume h: "seqs \<noteq> [] \<and> L < 2 ^ 60
     \<and> ((\<forall>q \<in> set seqs. q = []) \<or> int (sum_list (map length seqs)) < L)"
  then have ne: "seqs \<noteq> []" and small: "L < 2 ^ 60" by simp_all
  have total: "length (concat seqs) = sum_list (map length seqs)" by (rule length_concat)
  have "int (length (concat seqs)) < L"
  proof -
    from h consider "\<forall>q \<in> set seqs. q = []" | "int (sum_list (map length seqs)) < L" by blast
    then show ?thesis
    proof cases
      case 1
      then have "concat seqs = []" by simp
      then have "length (concat seqs) = 0" by (simp only: list.size)
      with assms show ?thesis by (simp only: of_nat_0)
    next
      case 2
      with total show ?thesis by simp
    qed
  qed
  with assms have "length (concat seqs) < nat L" by simp
  then have "length (concat seqs) div nat L = 0" by (rule div_less)
  with packer_pos [OF assms small ne] show "packer seqs L = Inr []"
    by simp
qed

theorem packer_too_few_tokens_witness:
  "(0::int) < 5 \<and> packer [] 5 = Inl ValueError_concatenate \<and> packer [[1, 2]] 5 = Inr []
   \<and> packer [[], []] 5 = Inr []
   \<and> packer [[1, 2]] 1152921504606846976 = Inl ValueError_reshape"
  using packer_too_few_tokens [of 5 "[]"] packer_too_few_tokens [of 5 "[[1, 2]]"]
    packer_too_few_tokens [of 5 "[[], []]"]
    packer_too_few_tokens [of 1152921504606846976 "[[1, 2]]"]
  by simp

text \<open>
  C4 as stated fails at the empty collection, and at three tokens with row width
  \<open>2^60\<close>: both runs end in an exception, not in an empty result.
\<close>

theorem packer_empty_collection_counterexample:
  "packer [] 4 = Inl ValueError_concatenate
   \<and> packer [[1, 2, 3]] 1152921504606846976 = Inl ValueError_reshape
   \<and> (1152921504606846976 :: int) = 2 ^ 60"
  by code_simp



text \<open>
  C6, as the code has it. The outcome of the packer (the rows, or the exception) is a
  function of the input collection and \<open>L\<close> alone: it is the same from any two notebook
  states, and a second run on the same input gives the same outcome as the first. The
  run is not free of effects besides the output: it prints lines, which depend on the
  input and \<open>L\<close> only, and when it returns rows it has rebound \<^verbatim>\<open>input_ids\<close> to the
  truncated concatenation, \<^verbatim>\<open>max_seq_length\<close> and \<^verbatim>\<open>total_length\<close>, and has
  printed four lines; these and the output are all it changes.
\<close>

theorem packer_deterministic_with_effects:
  "fst (run_packer s1 seqs L) = fst (run_packer s2 seqs L)
   \<and> fst (run_packer (snd (run_packer s1 seqs L)) seqs L) = fst (run_packer s1 seqs L)
   \<and> stdout (snd (run_packer s1 seqs L)) = stdout s1 @ stdout (snd (run_packer fresh seqs L))
   \<and> (0 < L \<and> L < 2 ^ 60 \<and> seqs \<noteq> [] \<longrightarrow>
        (\<exists>rows. fst (run_packer s1 seqs L) = Inr rows
          \<and> snd (run_packer s1 seqs L) =
              s1\<lparr>input_ids := Some \<lparr>dtype = result_dtype seqs,
                     items = take (length (concat seqs) - length (concat seqs) mod nat L)
                               (map (element_value (result_dtype seqs)) (concat seqs))\<rparr>,
                 max_seq_length := Some L,
                 total_length := Some (int (length (concat seqs) - length (concat seqs) mod nat L)),
                 input_ids_reshaped := Some rows,
                 stdout := stdout s1 @
                   [''Total number of concatenated tokens: '' @ py_str (int (length (concat seqs))),
                    ''Adjusted total length: ''
                       @ py_str (int (length (concat seqs) - length (concat seqs) mod nat L)),
                    ''Shape after truncation: (''
                       @ py_str (int (length (concat seqs) - length (concat seqs) mod nat L)) @ '',)'',
                    ''Shape after reshaping: ('' @ py_str (int (length (concat seqs) div nat L))
                       @ '', '' @ py_str L @ '')'']\<rparr>))"
proof (intro conjI impI)
  show "fst (run_packer s1 seqs L) = fst (run_packer s2 seqs L)"
    by (rule run_packer_outcome_independent)
  show "fst (run_packer (snd (run_packer s1 seqs L)) seqs L) = fst (run_packer s1 seqs L)"
    by (rule run_packer_outcome_independent)
  show "stdout (snd (run_packer s1 seqs L)) = stdout s1 @ stdout (snd (run_packer fresh seqs L))"
    by (rule run_packer_prints)
next
  assume "0 < L \<and> L < 2 ^ 60 \<and> seqs \<noteq> []"
  then have pre: "0 < L" "L < 2 ^ 60" "seqs \<noteq> []" by simp_all
  show "\<exists>rows. fst (run_packer s1 seqs L) = Inr rows
          \<and> snd (run_packer s1 seqs L) =
              s1\<lparr>input_ids := Some \<lparr>dtype = result_dtype seqs,
                     items = take (length (concat seqs) - length (concat seqs) mod nat L)
                               (map (element_value (result_dtype seqs)) (concat seqs))\<rparr>,
                 max_seq_length := Some L,
                 total_length := Some (int (length (concat seqs) - length (concat seqs) mod nat L)),
                 input_ids_reshaped := Some rows,
                 stdout := stdout s1 @
                   [''Total number of concatenated tokens: '' @ py_str (int (length (concat seqs))),
                    ''Adjusted total length: ''
                       @ py_str (int (length (concat seqs) - length (concat seqs) mod nat L)),
                    ''Shape after truncation: (''
                       @ py_str (int (length (concat seqs) - length (concat seqs) mod nat L)) @ '',)'',
                    ''Shape after reshaping: ('' @ py_str (int (length (concat seqs) div nat L))
                       @ '', '' @ py_str L @ '')'']\<rparr>"
    by (simp only: run_packer_pos [OF pre] fst_conv snd_conv) blast
qed

theorem packer_deterministic_with_effects_witness:
  "(0::int) < 2 \<and> (2::int) < 2 ^ 60 \<and> [[1, 2, 3 :: int64]] \<noteq> []
   \<and> fst (run_packer fresh [[1, 2, 3]] 2) = Inr [[1, 2]]
   \<and> snd (run_packer fresh [[1, 2, 3]] 2) =
        \<lparr>input_ids = Some \<lparr>dtype = Int64, items = [1, 2]\<rparr>, max_seq_length = Some 2,
         total_length = Some 2, input_ids_reshaped = Some [[1, 2]],
         stdout = [''Total number of concatenated tokens: 3'', ''Adjusted total length: 2'',
                   ''Shape after truncation: (2,)'', ''Shape after reshaping: (1, 2)'']\<rparr>"
proof -
  have pre: "(0::int) < 2 \<and> (2::int) < 2 ^ 60 \<and> [[1, 2, 3 :: int64]] \<noteq> []" by simp
  have out: "fst (run_packer fresh [[1, 2, 3]] 2) = Inr [[1, 2]]" by code_simp
  have strs: "py_str 3 = ''3''" "py_str 2 = ''2''" "py_str 1 = ''1''" by code_simp+
  have ev: "result_dtype [[1, 2, 3]] = Int64" "element_value Int64 1 = 1"
    "element_value Int64 2 = 2" "element_value Int64 3 = 3"
    by (simp_all add: result_dtype_def element_value_def)
  from packer_deterministic_with_effects [of fresh "[[1, 2, 3]]" 2 fresh] pre out
  have "snd (run_packer fresh [[1, 2, 3]] 2) =
        fresh\<lparr>input_ids := Some \<lparr>dtype = Int64, items = [1, 2]\<rparr>, max_seq_length := Some 2,
         total_length := Some 2, input_ids_reshaped := Some [[1, 2]],
         stdout := stdout fresh @ [''Total number of concatenated tokens: 3'', ''Adjusted total length: 2'',
                   ''Shape after truncation: (2,)'', ''Shape after reshaping: (1, 2)'']\<rparr>"
    by (simp add: ev strs)
  then have "snd (run_packer fresh [[1, 2, 3]] 2) =
        \<lparr>input_ids = Some \<lparr>dtype = Int64, items = [1, 2]\<rparr>, max_seq_length = Some 2,
         total_length = Some 2, input_ids_reshaped = Some [[1, 2]],
         stdout = [''Total number of concatenated tokens: 3'', ''Adjusted total length: 2'',
                   ''Shape after truncation: (2,)'', ''Shape after reshaping: (1, 2)'']\<rparr>"
    by (simp add: fresh_def)
  with pre out show ?thesis by simp
qed

text \<open>
  C6 as stated fails on the effects: after packing three tokens with row width 2 from a
  fresh notebook, \<^verbatim>\<open>input_ids\<close> holds the truncated array, \<^verbatim>\<open>max_seq_length\<close> and
  \<^verbatim>\<open>total_length\<close> are bound and four lines are printed, none of which a notebook
  holding the output alone has.
\<close>

theorem packer_side_effects_counterexample:
  "fst (run_packer fresh [[1, 2, 3]] 2) = Inr [[1, 2]]
   \<and> input_ids (snd (run_packer fresh [[1, 2, 3]] 2)) = Some \<lparr>dtype = Int64, items = [1, 2]\<rparr>
   \<and> max_seq_length (snd (run_packer fresh [[1, 2, 3]] 2)) = Some 2
   \<and> total_length (snd (run_packer fresh [[1, 2, 3]] 2)) = Some 2
   \<and> stdout (snd (run_packer fresh [[1, 2, 3]] 2))
       = [''Total number of concatenated tokens: 3'', ''Adjusted total length: 2'',
          ''Shape after truncation: (2,)'', ''Shape after reshaping: (1, 2)'']
   \<and> input_ids (fresh\<lparr>input_ids_reshaped := Some [[1, 2]]\<rparr>) = None
   \<and> stdout (fresh\<lparr>input_ids_reshaped := Some [[1, 2]]\<rparr>) = []"
  by code_simp

text \<open>
  C7. For the input \<open>[[1,2,3],[4,5],[6,7,8,9,10]]\<close> and row width 4 the packer returns
  exactly the two rows \<open>[1,2,3,4]\<close> and \<open>[5,6,7,8]\<close>, and the tokens 9 and 10 are in
  neither row.
\<close>

theorem packer_scenario:
  "packer [[1, 2, 3], [4, 5], [6, 7, 8, 9, 10]] 4 = Inr [[1, 2, 3, 4], [5, 6, 7, 8]]
   \<and> (9 :: int32) \<notin> set [1, 2, 3, 4] \<and> (9 :: int32) \<notin> set [5, 6, 7, 8]
   \<and> (10 :: int32) \<notin> set [1, 2, 3, 4] \<and> (10 :: int32) \<notin> set [5, 6, 7, 8]"
  by code_simp

text \<open>
  C8. Every output element is an \<^verbatim>\<open>int32\<close>, cast from the input element at its
  place. When every token id lies in \<open>[-2^31, 2^31)\<close> each output element equals its
  input element. When no sequence is empty the output value is the input value wrapped
  modulo \<open>2^32\<close> into \<open>[-2^31, 2^31)\<close>: the token \<open>2^31\<close> is an input outside the range
  whose output element, \<open>-2^31\<close>, differs from it. (The packer returns rows unless the
  collection is empty or \<open>L \<ge> 2^60\<close>.)
\<close>

theorem packer_int32_cast:
  "(0 < L \<longrightarrow>
      (seqs = [] \<and> packer seqs L = Inl ValueError_concatenate)
      \<or> (seqs \<noteq> [] \<and> 2 ^ 60 \<le> L \<and> packer seqs L = Inl ValueError_reshape)
      \<or> (seqs \<noteq> [] \<and> L < 2 ^ 60
           \<and> (\<exists>rows. packer seqs L = Inr rows
                 \<and> ([] \<notin> set seqs \<longrightarrow>
                      (\<forall>i < length rows. \<forall>j < nat L.
                         sint (rows ! i ! j)
                           = (sint (concat seqs ! (i * nat L + j)) + 2 ^ 31) mod 2 ^ 32 - 2 ^ 31))
                 \<and> ((\<forall>x \<in> set (concat seqs). - (2 ^ 31) \<le> sint x \<and> sint x < 2 ^ 31) \<longrightarrow>
                      (\<forall>i < length rows. \<forall>j < nat L.
                         sint (rows ! i ! j) = sint (concat seqs ! (i * nat L + j)))))))
   \<and> packer [[2147483648]] 1 = Inr [[- 2147483648]]
   \<and> sint (- 2147483648 :: int32) = (sint (2147483648 :: int64) + 2 ^ 31) mod 2 ^ 32 - 2 ^ 31
   \<and> sint (- 2147483648 :: int32) \<noteq> sint (2147483648 :: int64)"
proof (intro conjI impI)
  assume L: "0 < L"
  consider "seqs = []" | "seqs \<noteq> []" "2 ^ 60 \<le> L" | "seqs \<noteq> []" "L < 2 ^ 60"
    by fastforce
  then show "(seqs = [] \<and> packer seqs L = Inl ValueError_concatenate)
      \<or> (seqs \<noteq> [] \<and> 2 ^ 60 \<le> L \<and> packer seqs L = Inl ValueError_reshape)
      \<or> (seqs \<noteq> [] \<and> L < 2 ^ 60
           \<and> (\<exists>rows. packer seqs L = Inr rows
                 \<and> ([] \<notin> set seqs \<longrightarrow>
                      (\<forall>i < length rows. \<forall>j < nat L.
                         sint (rows ! i ! j)
                           = (sint (concat seqs ! (i * nat L + j)) + 2 ^ 31) mod 2 ^ 32 - 2 ^ 31))
                 \<and> ((\<forall>x \<in> set (concat seqs). - (2 ^ 31) \<le> sint x \<and> sint x < 2 ^ 31) \<longrightarrow>
                      (\<forall>i < length rows. \<forall>j < nat L.
                         sint (rows ! i ! j) = sint (concat seqs ! (i * nat L + j))))))"
  proof cases
    case 1
    then show ?thesis by (simp add: packer_empty)
  next
    case 2
    then show ?thesis by (simp add: packer_huge)
  next
    case 3
    let ?T = "concat seqs"
    let ?w = "nat L"
    from L 3 obtain rows where out: "packer seqs L = Inr rows"
      and cell: "\<forall>i < length rows. \<forall>j < ?w.
         i * ?w + j < length ?T \<and> rows ! i ! j = stored seqs (?T ! (i * ?w + j))"
      using packer_cells by blast
    have wrap: "\<forall>i < length rows. \<forall>j < ?w.
        sint (rows ! i ! j) = (sint (?T ! (i * ?w + j)) + 2 ^ 31) mod 2 ^ 32 - 2 ^ 31"
      if noempty: "[] \<notin> set seqs"
    proof (intro allI impI)
      fix i j assume "i < length rows" and "j < ?w"
      with cell have "rows ! i ! j = stored seqs (?T ! (i * ?w + j))" by blast
      then show "sint (rows ! i ! j) = (sint (?T ! (i * ?w + j)) + 2 ^ 31) mod 2 ^ 32 - 2 ^ 31"
        by (simp only: sint_stored_int64 [OF noempty])
    qed
    have same: "\<forall>i < length rows. \<forall>j < ?w. sint (rows ! i ! j) = sint (?T ! (i * ?w + j))"
      if range: "\<forall>x \<in> set ?T. - (2 ^ 31) \<le> sint x \<and> sint x < 2 ^ 31"
    proof (intro allI impI)
      fix i j assume "i < length rows" and "j < ?w"
      with cell have inside: "i * ?w + j < length ?T"
        and eq: "rows ! i ! j = stored seqs (?T ! (i * ?w + j))" by blast+
      from inside have "?T ! (i * ?w + j) \<in> set ?T" by (rule nth_mem)
      with range have "- (2 ^ 31) \<le> sint (?T ! (i * ?w + j))" and "sint (?T ! (i * ?w + j)) < 2 ^ 31"
        by blast+
      then have "sint (stored seqs (?T ! (i * ?w + j))) = sint (?T ! (i * ?w + j))"
        by (rule sint_stored_in_range)
      with eq show "sint (rows ! i ! j) = sint (?T ! (i * ?w + j))" by simp
    qed
    from out wrap same
    have "\<exists>rows. packer seqs L = Inr rows
                 \<and> ([] \<notin> set seqs \<longrightarrow>
                      (\<forall>i < length rows. \<forall>j < nat L.
                         sint (rows ! i ! j)
                           = (sint (concat seqs ! (i * nat L + j)) + 2 ^ 31) mod 2 ^ 32 - 2 ^ 31))
                 \<and> ((\<forall>x \<in> set (concat seqs). - (2 ^ 31) \<le> sint x \<and> sint x < 2 ^ 31) \<longrightarrow>
                      (\<forall>i < length rows. \<forall>j < nat L.
                         sint (rows ! i ! j) = sint (concat seqs ! (i * nat L + j))))"
      by blast
    with 3 show ?thesis by blast
  qed
next
  show "packer [[2147483648]] 1 = Inr [[- 2147483648]]" by code_simp
next
  show "sint (- 2147483648 :: int32) = (sint (2147483648 :: int64) + 2 ^ 31) mod 2 ^ 32 - 2 ^ 31"
    by simp
next
  show "sint (- 2147483648 :: int32) \<noteq> sint (2147483648 :: int64)" by simp
qed

theorem packer_int32_cast_witness:
  "(0::int) < 2
   \<and> (\<exists>rows. packer [[1, 2, 3], [4, 5]] 2 = Inr rows
         \<and> (\<forall>i < length rows. \<forall>j < 2.
               sint (rows ! i ! j) = sint (concat [[1, 2, 3], [4, 5 :: int64]] ! (i * 2 + j))))"
proof -
  have range: "\<forall>x \<in> set (concat [[1, 2, 3], [4, 5 :: int64]]). - (2 ^ 31) \<le> sint x \<and> sint x < 2 ^ 31"
    by simp
  have pos: "(0::int) < 2" by simp
  have here: "[[1, 2, 3], [4, 5 :: int64]] \<noteq> []" "\<not> (2 ^ 60 \<le> (2::int))" by simp_all
  from packer_int32_cast [of 2 "[[1, 2, 3], [4, 5]]"] pos here
  obtain rows where out: "packer [[1, 2, 3], [4, 5]] 2 = Inr rows"
    and val: "(\<forall>x \<in> set (concat [[1, 2, 3], [4, 5 :: int64]]). - (2 ^ 31) \<le> sint x \<and> sint x < 2 ^ 31) \<longrightarrow>
       (\<forall>i < length rows. \<forall>j < nat 2.
          sint (rows ! i ! j) = sint (concat [[1, 2, 3], [4, 5 :: int64]] ! (i * nat 2 + j)))"
    by blast
  from val range have "\<forall>i < length rows. \<forall>j < nat 2.
          sint (rows ! i ! j) = sint (concat [[1, 2, 3], [4, 5 :: int64]] ! (i * nat 2 + j))"
    by (rule mp)
  then have "\<forall>i < length rows. \<forall>j < 2.
          sint (rows ! i ! j) = sint (concat [[1, 2, 3], [4, 5 :: int64]] ! (i * 2 + j))"
    by simp
  with pos out show ?thesis by blast
qed

text \<open>
  The \<^verbatim>\<open>float64\<close> path at work: with an empty sequence in the collection an id
  outside \<open>[-2^31, 2^31)\<close> is not wrapped by the cast, an id inside comes back as it is,
  and an id of more than 53 bits is rounded when it is concatenated.
\<close>

lemma packer_float64_examples:
  "packer [[], [4294967297]] 1 = Inr [[- 2147483648]]
   \<and> packer [[], [5]] 1 = Inr [[5]]
   \<and> input_ids (snd (run_packer fresh [[], [9007199254740993]] 1))
       = Some \<lparr>dtype = Float64, items = [9007199254740992]\<rparr>"
  by code_simp

section \<open>Properties of the environment bootstrap\<close>

text \<open>
  C9. Every call of \<^verbatim>\<open>setup_environment\<close> with \<^verbatim>\<open>run_remote = False\<close> that
  returns, returns \<^verbatim>\<open>mount_success = False\<close>, whatever the other arguments and the
  machine are: the call returns the working directory and \<open>False\<close> when the folder-name
  assertion holds and raises \<^verbatim>\<open>AssertionError\<close> otherwise. A returned
  \<^verbatim>\<open>mount_success = True\<close> needs the remote branch and a drive that is mounted.
\<close>

theorem setup_environment_local_mount_success:
  "setup_environment env curr_proj_folder google_drive_base_folder False use_gpu =
     (if os_path_basename (getcwd env) = curr_proj_folder
      then Inr (getcwd env, False) else Inl AssertionError)
   \<and> (\<forall>path_to_scripts mount_success.
         setup_environment env curr_proj_folder google_drive_base_folder False use_gpu
           = Inr (path_to_scripts, mount_success) \<longrightarrow> mount_success = False)
   \<and> (\<forall>run_remote path_to_scripts.
         setup_environment env curr_proj_folder google_drive_base_folder run_remote use_gpu
           = Inr (path_to_scripts, True) \<longrightarrow> run_remote \<and> ismount_drive env)"
  by (auto simp add: setup_environment_def local_run_def remote_run_def Let_def
           split: if_splits sum.splits)

theorem setup_environment_local_mount_success_witness:
  "setup_environment
     \<lparr>colab_importable = False, mount_raises = False, ismount_drive = False,
      path_exists = (\<lambda>p. False), makedirs_raises = (\<lambda>p. False), chdir_raises = (\<lambda>p. False),
      getcwd = ''/home/user/pretraining-llms'', nvidia_smi_ok = False\<rparr>
     ''pretraining-llms'' ''Colab Notebooks'' False True
   = Inr (''/home/user/pretraining-llms'', False)
   \<and> setup_environment
     \<lparr>colab_importable = True, mount_raises = False, ismount_drive = True,
      path_exists = (\<lambda>p. True), makedirs_raises = (\<lambda>p. False), chdir_raises = (\<lambda>p. False),
      getcwd = ''/content'', nvidia_smi_ok = True\<rparr>
     ''pretraining-llms'' ''Colab Notebooks'' True True
   = Inr (''/content/drive/MyDrive/Colab Notebooks/pretraining-llms'', True)"
  using setup_environment_local_mount_success
    [of "\<lparr>colab_importable = False, mount_raises = False, ismount_drive = False,
      path_exists = (\<lambda>p. False), makedirs_raises = (\<lambda>p. False), chdir_raises = (\<lambda>p. False),
      getcwd = ''/home/user/pretraining-llms'', nvidia_smi_ok = False\<rparr>"
     "''pretraining-llms''" "''Colab Notebooks''" True]
  by (simp add: os_path_basename_def setup_environment_def remote_run_def gpu_check_def
        os_path_join_def join2_def)

text \<open>
  C10. After the run-mode selection cell \<^verbatim>\<open>run_local\<close> is \<open>False\<close> for both
  values of \<^verbatim>\<open>run_remote\<close> and \<^verbatim>\<open>run_local_usingColab\<close> is the negation of
  \<^verbatim>\<open>run_remote\<close>; so the cell never leaves \<^verbatim>\<open>run_local = True\<close> with
  \<^verbatim>\<open>run_local_usingColab = False\<close>, the second scenario of the notebook's list.
\<close>

theorem run_mode_selection_flags:
  "fst (run_mode_selection run_remote) = False
   \<and> snd (run_mode_selection run_remote) = (\<not> run_remote)
   \<and> run_mode_selection False \<noteq> (True, False)
   \<and> run_mode_selection True \<noteq> (True, False)"
  by (simp add: run_mode_selection_def)

end
